theory Spec2Isabelle
  imports Main "HOL-Library.Word" "HOL-Library.Sublist"
begin

section \<open>The OData client of tm1-log-tracker (utils/odata.go, main.go)\<close>

text \<open>
  The Go package \<^verbatim>\<open>odata\<close> wraps \<^verbatim>\<open>http.Client\<close> with request builders
  (\<^verbatim>\<open>ExecuteGETRequest\<close>, \<^verbatim>\<open>ExecuteGETRequestEx\<close>), two loops over a paged
  collection (\<^verbatim>\<open>IterateCollection\<close>, \<^verbatim>\<open>TrackCollection\<close>) and a status check
  (\<^verbatim>\<open>ValidateStatusCode\<close>). The embedding threads an explicit world through every
  function: the state of everything outside the program (the server, the callback's own
  variables), the store of response body streams, the sequence of observable events, and
  standard output. A call that ends the process (\<^verbatim>\<open>log.Fatal\<close>, a run-time panic) is a
  value of type \<open>abort\<close>.
\<close>

subsection \<open>Data\<close>

type_synonym bytes = string

text \<open>\<^verbatim>\<open>time.Duration\<close> is an \<^verbatim>\<open>int64\<close> count of nanoseconds.\<close>

type_synonym Duration = "64 word"

definition Second :: Duration where
  "Second = 1000000000"

text \<open>
  The fields of \<^verbatim>\<open>http.Request\<close> the package touches. \<open>URL\<close> is the parsed URL
  in its string form. \<open>Header\<close> keeps the
  \<^verbatim>\<open>Header.Add\<close> calls in order, name and value as the source writes them (net/http
  folds the letter case of the name; header names are case-insensitive on the wire).
\<close>

record Request =
  Method :: string
  URL :: string
  Header :: "(string \<times> string) list"
  ReqBody :: "string option"

text \<open>What the server answers to one round trip: status code, status line, body bytes.\<close>

record Reply =
  code :: int
  status :: string
  content :: bytes

text \<open>
  \<^verbatim>\<open>*http.Response\<close>: \<open>Body\<close> is a handle into the world's store of body streams
  (an \<^verbatim>\<open>io.ReadCloser\<close> is shared, mutable state).
\<close>

record Response =
  StatusCode :: int
  Status :: string
  Body :: nat

datatype event = Send Request | Process bytes | Slept Duration

datatype abort = Fatal string | Panic string

record 'e world =
  ext :: 'e
  streams :: "(bytes \<times> bool) list"
  trace :: "event list"
  stdout :: "string list"
  Verbose :: bool

text \<open>
  \<^verbatim>\<open>Client\<close> embeds \<^verbatim>\<open>http.Client\<close>. Two things of it are not code of this package
  and are taken as parameters. The first is what \<^verbatim>\<open>net/url\<close> makes of a URL string:
  \<open>None\<close> when it refuses the string (then \<^verbatim>\<open>http.NewRequest\<close> returns \<^verbatim>\<open>nil\<close> and
  an error), otherwise the string form of the parsed URL, which is what \<^verbatim>\<open>req.URL\<close>
  prints and what goes out (a space in a path, for one, is written \<open>%20\<close>). The second
  is the round trip itself, which acts on the outside state and yields either a transport
  error or the server's reply.
\<close>

record 'e Client =
  parse_url :: "string \<Rightarrow> string option"
  round_trip :: "Request \<Rightarrow> 'e \<Rightarrow> (string + Reply) \<times> 'e"

subsection \<open>Primitives of the Go runtime and library\<close>

definition nil_dereference :: string where
  "nil_dereference = ''runtime error: invalid memory address or nil pointer dereference''"

definition slice_out_of_range :: string where
  "slice_out_of_range = ''runtime error: slice bounds out of range''"

definition CRLF :: string where
  "CRLF = [CHR 0x0D, CHR 0x0A]"

definition LF :: string where
  "LF = [CHR 0x0A]"

definition NewRequest :: "'e Client \<Rightarrow> string \<Rightarrow> string \<Rightarrow> string option \<Rightarrow> Request option" where
  "NewRequest client m urlStr b =
     (case parse_url client urlStr of
        None \<Rightarrow> None
      | Some u \<Rightarrow> Some \<lparr>Method = m, URL = u, Header = [], ReqBody = b\<rparr>)"

definition Header_Add :: "string \<Rightarrow> string \<Rightarrow> Request \<Rightarrow> Request" where
  "Header_Add k v req = req\<lparr>Header := Header req @ [(k, v)]\<rparr>"

definition Println :: "string \<Rightarrow> 'e world \<Rightarrow> 'e world" where
  "Println s w = w\<lparr>stdout := stdout w @ [s]\<rparr>"

text \<open>
  \<^verbatim>\<open>client.Do(req)\<close>: the request goes out (event \<open>Send\<close>); a reply opens a new body
  stream holding the reply's bytes, unread and not closed.
\<close>

definition client_Do :: "'e Client \<Rightarrow> Request \<Rightarrow> 'e world \<Rightarrow> (string + Response) \<times> 'e world" where
  "client_Do client req w =
     (let w1 = w\<lparr>trace := trace w @ [Send req]\<rparr>
      in case round_trip client req (ext w1) of
           (Inl err, e') \<Rightarrow> (Inl err, w1\<lparr>ext := e'\<rparr>)
         | (Inr rep, e') \<Rightarrow>
             (Inr \<lparr>StatusCode = code rep, Status = status rep, Body = length (streams w1)\<rparr>,
              w1\<lparr>ext := e', streams := streams w1 @ [(content rep, False)]\<rparr>))"

text \<open>
  \<^verbatim>\<open>body, _ := ioutil.ReadAll(resp.Body)\<close>: everything unread, leaving the stream drained;
  a closed stream yields an error, which the source discards, and no bytes.
\<close>

definition ReadAll :: "nat \<Rightarrow> 'e world \<Rightarrow> bytes \<times> 'e world" where
  "ReadAll h w =
     (if h < length (streams w) \<and> \<not> snd (streams w ! h)
      then (fst (streams w ! h), w\<lparr>streams := (streams w)[h := ([], False)]\<rparr>)
      else ([], w))"

definition Close :: "nat \<Rightarrow> 'e world \<Rightarrow> 'e world" where
  "Close h w =
     (if h < length (streams w)
      then w\<lparr>streams := (streams w)[h := (fst (streams w ! h), True)]\<rparr>
      else w)"

definition Sleep :: "Duration \<Rightarrow> 'e world \<Rightarrow> 'e world" where
  "Sleep d w = w\<lparr>trace := trace w @ [Slept d]\<rparr>"

text \<open>
  Deferred calls run when the surrounding function returns, last deferred first, and
  also while a panic unwinds the stack. They do not run when the process exits:
  \<^verbatim>\<open>log.Fatal\<close> is \<^verbatim>\<open>Print\<close> followed by \<^verbatim>\<open>os.Exit(1)\<close>, and \<^verbatim>\<open>os.Exit\<close>
  terminates the program at once. The functions below carry the handles whose
  \<^verbatim>\<open>Close\<close> is deferred, most recent first; \<open>unwind\<close> is what happens to them
  when a callee aborts.
\<close>

definition run_deferred :: "nat list \<Rightarrow> 'e world \<Rightarrow> 'e world" where
  "run_deferred deferred w = fold Close deferred w"

definition log_Fatal :: "string \<Rightarrow> nat list \<Rightarrow> 'e world \<Rightarrow> (abort + 'a) \<times> 'e world" where
  "log_Fatal msg deferred w = (Inl (Fatal msg), w)"

definition unwind :: "abort \<Rightarrow> nat list \<Rightarrow> 'e world \<Rightarrow> 'e world" where
  "unwind a deferred w = (case a of Fatal _ \<Rightarrow> w | Panic _ \<Rightarrow> run_deferred deferred w)"

text \<open>Streams that were opened and not closed.\<close>

definition open_bodies :: "'e world \<Rightarrow> nat" where
  "open_bodies w = length (filter (\<lambda>s. \<not> snd s) (streams w))"

text \<open>The callback runs on the outside state; the world records that it was called.\<close>

definition invoke :: "(bytes \<Rightarrow> 'e \<Rightarrow> (abort + 'a) \<times> 'e) \<Rightarrow> bytes \<Rightarrow> 'e world \<Rightarrow> (abort + 'a) \<times> 'e world" where
  "invoke processResponse body w =
     (case processResponse body (ext w) of
        (r, e') \<Rightarrow> (r, w\<lparr>ext := e', trace := trace w @ [Process body]\<rparr>))"

subsection \<open>Request builders\<close>

text \<open>
  \<^verbatim>\<open>req, _ := http.NewRequest(...)\<close> discards the error; when there is one, \<^verbatim>\<open>req\<close>
  is \<^verbatim>\<open>nil\<close> and the next line, \<^verbatim>\<open>req.Header.Add\<close>, panics. The line printed under
  \<^verbatim>\<open>Verbose\<close> is the method, a space and \<^verbatim>\<open>req.URL\<close>.
\<close>

definition ExecuteGETRequest :: "'e Client \<Rightarrow> string \<Rightarrow> 'e world \<Rightarrow> (abort + Response) \<times> 'e world" where
  "ExecuteGETRequest client urlStr w =
     (case NewRequest client ''GET'' urlStr None of
        None \<Rightarrow> (Inl (Panic nil_dereference), w)
      | Some req0 \<Rightarrow>
          let req1 = Header_Add ''OData-Version'' ''4.0'' req0;
              req = Header_Add ''Accept'' ''application/json'' req1;
              w1 = (if Verbose w then Println (Method req @ '' '' @ URL req) w else w)
          in (case client_Do client req w1 of
                (Inl err, w2) \<Rightarrow> log_Fatal err [] w2
              | (Inr resp, w2) \<Rightarrow> (Inr resp, w2)))"

definition ExecuteGETRequestEx :: "'e Client \<Rightarrow> string \<Rightarrow> (Request \<Rightarrow> Request) \<Rightarrow> 'e world \<Rightarrow> (abort + Response) \<times> 'e world" where
  "ExecuteGETRequestEx client urlStr preReq w =
     (case NewRequest client ''GET'' urlStr None of
        None \<Rightarrow> (Inl (Panic nil_dereference), w)
      | Some req0 \<Rightarrow>
          let req1 = Header_Add ''OData-Version'' ''4.0'' req0;
              req2 = Header_Add ''Accept'' ''application/json'' req1;
              req = preReq req2;
              w1 = (if Verbose w then Println (Method req @ '' '' @ URL req) w else w)
          in (case client_Do client req w1 of
                (Inl err, w2) \<Rightarrow> log_Fatal err [] w2
              | (Inr resp, w2) \<Rightarrow> (Inr resp, w2)))"

subsection \<open>The loops\<close>



definition track_changes :: "Request \<Rightarrow> Request" where
  "track_changes req = Header_Add ''Prefer'' ''odata.track-changes'' req"

fun TrackCollection_loop :: "nat \<Rightarrow> 'e Client \<Rightarrow> string \<Rightarrow> Duration \<Rightarrow> (bytes \<Rightarrow> 'e \<Rightarrow> (abort + string \<times> string) \<times> 'e) \<Rightarrow> string \<Rightarrow> nat list \<Rightarrow> 'e world \<Rightarrow> (abort + unit) option \<times> 'e world" where
  "TrackCollection_loop 0 client root interval processResponse urlStr deferred w = (None, w)"
| "TrackCollection_loop (Suc n) client root interval processResponse urlStr deferred w =
     (if urlStr = [] then (Some (Inr ()), run_deferred deferred w)
      else case ExecuteGETRequestEx client (root @ urlStr) track_changes w of
             (Inl a, w1) \<Rightarrow> (Some (Inl a), unwind a deferred w1)
           | (Inr resp, w1) \<Rightarrow>
               let deferred1 = Body resp # deferred;
                   (body, w2) = ReadAll (Body resp) w1;
                   w3 = (if Verbose w2 then Println body w2 else w2)
               in (case invoke processResponse body w3 of
                     (Inl a, w4) \<Rightarrow> (Some (Inl a), unwind a deferred1 w4)
                   | (Inr (nextLink, deltaLink), w4) \<Rightarrow>
                       if nextLink \<noteq> [] then
                         TrackCollection_loop n client root interval processResponse nextLink deferred1 w4
                       else if deltaLink \<noteq> [] then
                         TrackCollection_loop n client root interval processResponse deltaLink deferred1
                           (Sleep interval w4)
                       else (Some (Inr ()), run_deferred deferred1 w4)))"

definition TrackCollection :: "nat \<Rightarrow> 'e Client \<Rightarrow> string \<Rightarrow> string \<Rightarrow> Duration \<Rightarrow> (bytes \<Rightarrow> 'e \<Rightarrow> (abort + string \<times> string) \<times> 'e) \<Rightarrow> 'e world \<Rightarrow> (abort + unit) option \<times> 'e world" where
  "TrackCollection fuel client serviceRootURL urlStr interval processResponse w =
     TrackCollection_loop fuel client serviceRootURL interval processResponse urlStr [] w"

subsection \<open>The status check\<close>

text \<open>
  On a mismatch the source defers \<^verbatim>\<open>resp.Body.Close()\<close>, reads the body and calls
  \<^verbatim>\<open>log.Fatal\<close>; the process exits there, with the deferred call still pending.
\<close>

definition ValidateStatusCode :: "Response \<Rightarrow> int \<Rightarrow> (unit \<Rightarrow> string) \<Rightarrow> 'e world \<Rightarrow> (abort + unit) \<times> 'e world" where
  "ValidateStatusCode resp statusCode logFmt w =
     (if StatusCode resp \<noteq> statusCode then
        let deferred = [Body resp];
            (body, w1) = ReadAll (Body resp) w
        in log_Fatal (logFmt () @ CRLF @ ''Server responded with: '' @ Status resp @ CRLF @ body)
             deferred w1
      else (Inr (), w))"

subsection \<open>main.go: the polling interval and the version gate\<close>

text \<open>
  \<^verbatim>\<open>strconv.Atoi\<close> belongs to the Go library; this is its documented result on a
  platform whose \<^verbatim>\<open>int\<close> has 64 bits: an optional sign and then decimal digits only,
  value 0 with a syntax error otherwise, and for a numeral outside the range of
  \<^verbatim>\<open>int\<close> the nearest representable value with a range error.
\<close>

datatype NumError = ErrSyntax | ErrRange

definition is_digit :: "char \<Rightarrow> bool" where
  "is_digit c = (48 \<le> (of_char c :: int) \<and> (of_char c :: int) \<le> 57)"

fun decimal :: "int \<Rightarrow> string \<Rightarrow> int" where
  "decimal acc [] = acc"
| "decimal acc (c # cs) = decimal (acc * 10 + (of_char c - 48)) cs"

definition Atoi :: "string \<Rightarrow> int \<times> NumError option" where
  "Atoi s =
     (let neg = (s \<noteq> [] \<and> hd s = CHR ''-'');
          digits = (if s \<noteq> [] \<and> (hd s = CHR ''+'' \<or> hd s = CHR ''-'') then tl s else s)
      in if digits = [] \<or> \<not> list_all is_digit digits then (0, Some ErrSyntax)
         else let n = decimal 0 digits
              in if \<not> neg \<and> 2 ^ 63 \<le> n then (2 ^ 63 - 1, Some ErrRange)
                 else if neg \<and> 2 ^ 63 < n then (- (2 ^ 63), Some ErrRange)
                 else (if neg then - n else n, None))"

text \<open>\<^verbatim>\<open>os.Getenv\<close> returns the empty string for a variable that is not set.\<close>

definition Getenv :: "(string \<rightharpoonup> string) \<Rightarrow> string \<Rightarrow> string" where
  "Getenv env k = (case env k of None \<Rightarrow> [] | Some v \<Rightarrow> v)"

text \<open>
  Lines 126 to 129 of main.go: the error of \<^verbatim>\<open>Atoi\<close> is discarded, and a value below 1
  is replaced by 5.
\<close>

definition main_interval :: "(string \<rightharpoonup> string) \<Rightarrow> int" where
  "main_interval env =
     (let (interval, _) = Atoi (Getenv env ''TM1_TRACKER_INTERVAL'')
      in if interval < 1 then 5 else interval)"

text \<open>
  Line 194: \<^verbatim>\<open>time.Duration(interval)*time.Second\<close>, a product of two \<^verbatim>\<open>int64\<close>
  values, which wraps around.
\<close>

definition main_duration :: "(string \<rightharpoonup> string) \<Rightarrow> Duration" where
  "main_duration env = word_of_int (main_interval env) * Second"

definition main_track :: "nat \<Rightarrow> 'e Client \<Rightarrow> (string \<rightharpoonup> string) \<Rightarrow> (bytes \<Rightarrow> 'e \<Rightarrow> (abort + string \<times> string) \<times> 'e) \<Rightarrow> 'e world \<Rightarrow> (abort + unit) option \<times> 'e world" where
  "main_track fuel client env processMessageLogEntries w =
     TrackCollection fuel client (Getenv env ''TM1_SERVICE_ROOT_URL'') ''MessageLogEntries''
       (main_duration env) processMessageLogEntries w"

text \<open>
  A slice expression \<^verbatim>\<open>s[lo:hi]\<close> on a string panics unless \<open>lo \<le> hi \<le> len(s)\<close>.
  Strings compare byte by byte, a proper prefix being smaller.
\<close>

definition slice_string :: "string \<Rightarrow> nat \<Rightarrow> nat \<Rightarrow> abort + string" where
  "slice_string s lo hi =
     (if lo \<le> hi \<and> hi \<le> length s then Inr (take (hi - lo) (drop lo s))
      else Inl (Panic slice_out_of_range))"

fun string_less :: "string \<Rightarrow> string \<Rightarrow> bool" where
  "string_less [] [] = False"
| "string_less [] (y # ys) = True"
| "string_less (x # xs) [] = False"
| "string_less (x # xs) (y # ys) =
     (if (of_char x :: nat) < of_char y then True
      else if (of_char y :: nat) < of_char x then False
      else string_less xs ys)"

text \<open>Line 187: the condition \<^verbatim>\<open>string(version)[0:10] < "10.2.20500"\<close>.\<close>

definition version_too_old :: "bytes \<Rightarrow> abort + bool" where
  "version_too_old version =
     (case slice_string version 0 10 of
        Inl p \<Rightarrow> Inl p
      | Inr first \<Rightarrow> Inr (string_less first ''10.2.20500''))"

text \<open>Lines 187 to 189: \<^verbatim>\<open>log.Fatalln\<close> separates its operands by spaces and ends the line.\<close>

definition version_gate :: "bytes \<Rightarrow> abort + unit" where
  "version_gate version =
     (case version_too_old version of
        Inl p \<Rightarrow> Inl p
      | Inr old \<Rightarrow>
          if old then
            Inl (Fatal (''The TM1 Server version of your server is: '' @ version @ '' '' @ LF
                        @ '' Minimal required version to use a tracker is 10.2.2 FP5!'' @ LF))
          else Inr ())"

subsection \<open>Expected requests and worlds\<close>

text \<open>
  The request a plain GET is expected to send, the request a tracking GET is expected to
  send, and the world after one complete cycle of a loop: request \<open>req\<close> sent, a new
  stream opened and drained, the callback run on \<open>body\<close> leaving the outside state
  \<open>e\<close>.
\<close>

definition get_request :: "string \<Rightarrow> Request" where
  "get_request u =
     \<lparr>Method = ''GET'', URL = u,
      Header = [(''OData-Version'', ''4.0''), (''Accept'', ''application/json'')],
      ReqBody = None\<rparr>"

definition track_request :: "string \<Rightarrow> Request" where
  "track_request u =
     \<lparr>Method = ''GET'', URL = u,
      Header = [(''OData-Version'', ''4.0''), (''Accept'', ''application/json''),
                (''Prefer'', ''odata.track-changes'')],
      ReqBody = None\<rparr>"

definition after_cycle :: "Request \<Rightarrow> bytes \<Rightarrow> 'e \<Rightarrow> 'e world \<Rightarrow> 'e world" where
  "after_cycle req body e w =
     w\<lparr>ext := e,
       streams := streams w @ [([], False)],
       trace := trace w @ [Send req, Process body],
       stdout := stdout w @ (if Verbose w then [Method req @ '' '' @ URL req, body] else [])\<rparr>"

text \<open>
  Events of a tracking run: every request is a tracking request, every pause lasts
  \<open>interval\<close>.
\<close>

definition tracked :: "Duration \<Rightarrow> event list \<Rightarrow> bool" where
  "tracked interval evs \<longleftrightarrow>
     (\<forall>req. Send req \<in> set evs \<longrightarrow> (\<exists>u. req = track_request u))
     \<and> (\<forall>d. Slept d \<in> set evs \<longrightarrow> d = interval)"


fun links_of :: "(bytes \<Rightarrow> 'c \<Rightarrow> (int \<times> string) \<times> 'c) \<Rightarrow> 'c \<Rightarrow> Reply list \<Rightarrow> string list" where
  "links_of f c [] = []"
| "links_of f c (rep # rest) = snd (fst (f (content rep) c)) # links_of f (snd (f (content rep) c)) rest"

text \<open>
  A callback altered so that every answer carrying a next-page link carries the delta
  link \<open>d\<close> instead of its own.
\<close>

definition with_delta :: "string \<Rightarrow> (bytes \<Rightarrow> 'e \<Rightarrow> (abort + string \<times> string) \<times> 'e) \<Rightarrow> bytes \<Rightarrow> 'e \<Rightarrow> (abort + string \<times> string) \<times> 'e" where
  "with_delta d processResponse body e =
     (case processResponse body e of
        (Inl a, e') \<Rightarrow> (Inl a, e')
      | (Inr (nextLink, deltaLink), e') \<Rightarrow>
          (Inr (nextLink, if nextLink \<noteq> [] then d else deltaLink), e'))"

subsection \<open>Test doubles\<close>

text \<open>
  A world in which nothing has happened yet (\<^verbatim>\<open>Verbose\<close> is initialised to
  \<^verbatim>\<open>true\<close> by the package). A client whose server answers from a script and refuses
  the connection once the script is used up, and which sends the URL strings it accepts
  as they are written; a callback that decodes the links from the body and has no state
  of its own.
\<close>

definition initial :: "'e \<Rightarrow> 'e world" where
  "initial e = \<lparr>ext = e, streams = [], trace = [], stdout = [], Verbose = True\<rparr>"

definition any_url :: "string \<Rightarrow> bool" where
  "any_url u = True"

definition scripted :: "(string \<Rightarrow> bool) \<Rightarrow> Reply list Client" where
  "scripted ok =
     \<lparr>parse_url = (\<lambda>u. if ok u then Some u else None),
      round_trip = (\<lambda>req script. case script of
                                    [] \<Rightarrow> (Inl ''EOF'', [])
                                  | rep # rest \<Rightarrow> (Inr rep, rest))\<rparr>"

definition decoding :: "(bytes \<Rightarrow> 'a) \<Rightarrow> bytes \<Rightarrow> 'e \<Rightarrow> (abort + 'a) \<times> 'e" where
  "decoding decode body e = (Inr (decode body), e)"

text \<open>
  The same scripted server beside a state of the callback's own, with any URL parser; a
  callback that works on that state, so that its links need not depend on the body.
\<close>

definition serving :: "(string \<Rightarrow> string option) \<Rightarrow> (Reply list \<times> 'c) Client" where
  "serving parse =
     \<lparr>parse_url = parse,
      round_trip = (\<lambda>req (script, c). case script of
                                         [] \<Rightarrow> (Inl ''EOF'', ([], c))
                                       | rep # rest \<Rightarrow> (Inr rep, (rest, c)))\<rparr>"


text \<open>
  A stand-in for \<^verbatim>\<open>net/url\<close> with two things it does: a per cent sign that does not
  start an escape of two hexadecimal digits is refused, and a space is written
  \<open>%20\<close>.
\<close>

definition is_hex :: "char \<Rightarrow> bool" where
  "is_hex c \<longleftrightarrow> c \<in> set ''0123456789abcdefABCDEF''"

fun escapes_ok :: "string \<Rightarrow> bool" where
  "escapes_ok (c # h1 # h2 # rest) =
     (if c = CHR ''%'' then is_hex h1 \<and> is_hex h2 \<and> escapes_ok rest
      else escapes_ok (h1 # h2 # rest))"
| "escapes_ok cs = (CHR ''%'' \<notin> set cs)"


text \<open>Replies, callbacks and servers of the examples.\<close>

definition page1 :: Reply where
  "page1 = \<lparr>code = 200, status = ''200 OK'', content = ''page 1''\<rparr>"

definition page2 :: Reply where
  "page2 = \<lparr>code = 200, status = ''200 OK'', content = ''page 2''\<rparr>"

definition delta1 :: Reply where
  "delta1 = \<lparr>code = 200, status = ''200 OK'', content = ''delta 1''\<rparr>"

definition scenario_decode :: "bytes \<Rightarrow> string \<times> string" where
  "scenario_decode body =
     (if body = ''page 1'' then (''p2'', [])
      else if body = ''page 2'' then ([], ''d1'')
      else ([], []))"

definition both_links :: "bytes \<Rightarrow> string \<times> string" where
  "both_links body = (''p2'', ''d1'')"

definition bad_next :: "bytes \<Rightarrow> string \<times> string" where
  "bad_next body = (''%zz'', [])"

definition bad_both :: "bytes \<Rightarrow> string \<times> string" where
  "bad_both body = (''%zz'', ''d1'')"

definition always_delta :: "bytes \<Rightarrow> string \<times> string" where
  "always_delta body = ([], ''delta'')"




definition steady :: "unit Client" where
  "steady =
     \<lparr>parse_url = Some,
      round_trip = (\<lambda>req e. (Inr \<lparr>code = 200, status = ''200 OK'', content = ''{}''\<rparr>, e))\<rparr>"

definition not_found :: "unit Client" where
  "not_found =
     \<lparr>parse_url = Some,
      round_trip = (\<lambda>req e. (Inr \<lparr>code = 404, status = ''404 Not Found'', content = ''no such entity''\<rparr>, e))\<rparr>"

definition unset :: "string \<rightharpoonup> string" where
  "unset = Map.empty"

definition interval_env :: "string \<Rightarrow> string \<rightharpoonup> string" where
  "interval_env v = [''TM1_TRACKER_INTERVAL'' \<mapsto> v]"

section \<open>Properties\<close>

subsection \<open>Request builders\<close>

lemma round_trip_scripted [simp]:
  "round_trip (scripted ok) req (rep # rest) = (Inr rep, rest)"
  "round_trip (scripted ok) req [] = (Inl ''EOF'', [])"
  "parse_url (scripted ok) u = (if ok u then Some u else None)"
  by (simp_all add: scripted_def)

lemma trace_run_deferred [simp]: "trace (run_deferred ds w) = trace w"
  unfolding run_deferred_def by (induction ds arbitrary: w) (simp_all add: Close_def)

lemma ext_run_deferred [simp]: "ext (run_deferred ds w) = ext w"
  unfolding run_deferred_def by (induction ds arbitrary: w) (simp_all add: Close_def)

lemma unwind_simps [simp]:
  "unwind (Fatal m) deferred w = w"
  "unwind (Panic m) deferred w = run_deferred deferred w"
  by (simp_all add: unwind_def)

lemma trace_unwind [simp]: "trace (unwind a ds w) = trace w"
  by (cases a) simp_all

lemma ext_unwind [simp]: "ext (unwind a ds w) = ext w"
  by (cases a) simp_all

lemma ExecuteGETRequest_get:
  "ExecuteGETRequest client s w =
     (case parse_url client s of
        None \<Rightarrow> (Inl (Panic nil_dereference), w)
      | Some u \<Rightarrow>
          (case round_trip client (get_request u) (ext w) of
             (Inl err, e') \<Rightarrow>
               (Inl (Fatal err),
                w\<lparr>ext := e', trace := trace w @ [Send (get_request u)],
                  stdout := stdout w @ (if Verbose w then [''GET '' @ u] else [])\<rparr>)
           | (Inr rep, e') \<Rightarrow>
               (Inr \<lparr>StatusCode = code rep, Status = status rep, Body = length (streams w)\<rparr>,
                w\<lparr>ext := e', streams := streams w @ [(content rep, False)],
                  trace := trace w @ [Send (get_request u)],
                  stdout := stdout w @ (if Verbose w then [''GET '' @ u] else [])\<rparr>)))"
  by (cases w) (simp add: ExecuteGETRequest_def NewRequest_def Header_Add_def
      get_request_def client_Do_def Println_def log_Fatal_def Let_def
      split: sum.split prod.split option.split)

lemma ExecuteGETRequestEx_track:
  "ExecuteGETRequestEx client s track_changes w =
     (case parse_url client s of
        None \<Rightarrow> (Inl (Panic nil_dereference), w)
      | Some u \<Rightarrow>
          (case round_trip client (track_request u) (ext w) of
             (Inl err, e') \<Rightarrow>
               (Inl (Fatal err),
                w\<lparr>ext := e', trace := trace w @ [Send (track_request u)],
                  stdout := stdout w @ (if Verbose w then [''GET '' @ u] else [])\<rparr>)
           | (Inr rep, e') \<Rightarrow>
               (Inr \<lparr>StatusCode = code rep, Status = status rep, Body = length (streams w)\<rparr>,
                w\<lparr>ext := e', streams := streams w @ [(content rep, False)],
                  trace := trace w @ [Send (track_request u)],
                  stdout := stdout w @ (if Verbose w then [''GET '' @ u] else [])\<rparr>)))"
  by (cases w) (simp add: ExecuteGETRequestEx_def NewRequest_def track_changes_def Header_Add_def
      track_request_def client_Do_def Println_def log_Fatal_def Let_def
      split: sum.split prod.split option.split)

text \<open>
  Claim C10. With a hook that leaves the request as it is, \<^verbatim>\<open>ExecuteGETRequestEx\<close>
  does exactly what \<^verbatim>\<open>ExecuteGETRequest\<close> does for the same URL: same result, same
  world, and the request sent, when one can be built, is the GET for that URL with the
  version and accept headers and no body.
\<close>

theorem ExecuteGETRequestEx_noop_hook:
  "ExecuteGETRequestEx client urlStr (\<lambda>req. req) w = ExecuteGETRequest client urlStr w
   \<and> trace (snd (ExecuteGETRequest client urlStr w))
       = (case parse_url client urlStr of
            None \<Rightarrow> trace w
          | Some u \<Rightarrow> trace w @ [Send (get_request u)])"
  by (simp add: ExecuteGETRequestEx_def ExecuteGETRequest_get Let_def NewRequest_def Header_Add_def
      get_request_def client_Do_def Println_def log_Fatal_def split: sum.split prod.split option.split)

subsection \<open>One cycle of the tracker\<close>

lemma TrackCollection_loop_step:
  assumes "urlStr \<noteq> []" and "parse_url client (root @ urlStr) = Some u"
    and "round_trip client (track_request u) (ext w) = (Inr rep, ea)"
    and "processResponse (content rep) ea = (Inr (nextLink, deltaLink), eb)"
  shows "TrackCollection_loop (Suc n) client root interval processResponse urlStr deferred w =
     (let w4 = after_cycle (track_request u) (content rep) eb w;
          deferred1 = length (streams w) # deferred
      in if nextLink \<noteq> [] then
           TrackCollection_loop n client root interval processResponse nextLink deferred1 w4
         else if deltaLink \<noteq> [] then
           TrackCollection_loop n client root interval processResponse deltaLink deferred1 (Sleep interval w4)
         else (Some (Inr ()), run_deferred deferred1 w4))"
  using assms
  by (cases w) (simp add: ExecuteGETRequestEx_track ReadAll_def invoke_def Println_def after_cycle_def
      track_request_def Let_def)

lemma tracked_Nil [simp]: "tracked interval []"
  by (simp add: tracked_def)

lemma tracked_append [simp]:
  "tracked interval (xs @ ys) \<longleftrightarrow> tracked interval xs \<and> tracked interval ys"
  by (auto simp: tracked_def)

lemma tracked_Cons_Send [simp]:
  "tracked interval (Send (track_request u) # evs) \<longleftrightarrow> tracked interval evs"
  by (auto simp: tracked_def)

lemma tracked_Cons_Process [simp]:
  "tracked interval (Process b # evs) \<longleftrightarrow> tracked interval evs"
  by (auto simp: tracked_def)

lemma tracked_Cons_Slept [simp]:
  "tracked interval (Slept d # evs) \<longleftrightarrow> d = interval \<and> tracked interval evs"
  by (auto simp: tracked_def)

lemma TrackCollection_loop_events:
  "\<exists>evs. trace (snd (TrackCollection_loop n client root interval pr urlStr deferred w)) = trace w @ evs
         \<and> tracked interval evs"
proof (induction n arbitrary: urlStr deferred w)
  case 0
  then show ?case by simp
next
  case (Suc n)
  show ?case
  proof (cases "urlStr = [] \<or> parse_url client (root @ urlStr) = None")
    case True
    then show ?thesis by (auto simp: ExecuteGETRequestEx_track)
  next
    case False
    then obtain u where u: "urlStr \<noteq> []" "parse_url client (root @ urlStr) = Some u" by auto
    obtain r e1 where rt: "round_trip client (track_request u) (ext w) = (r, e1)"
      by (cases "round_trip client (track_request u) (ext w)")
    show ?thesis
    proof (cases r)
      case (Inl err)
      with u rt show ?thesis by (simp add: ExecuteGETRequestEx_track)
    next
      case (Inr rep)
      obtain c e2 where cb: "pr (content rep) e1 = (c, e2)"
        by (cases "pr (content rep) e1")
      let ?w4 = "after_cycle (track_request u) (content rep) e2 w"
      show ?thesis
      proof (cases c)
        case (Inl a)
        with u rt Inr cb show ?thesis
          by (cases w) (simp add: ExecuteGETRequestEx_track ReadAll_def invoke_def Println_def)
      next
        case c: (Inr links)
        obtain nextLink deltaLink where links: "links = (nextLink, deltaLink)" by (cases links)
        have step: "TrackCollection_loop (Suc n) client root interval pr urlStr deferred w =
           (if nextLink \<noteq> [] then
              TrackCollection_loop n client root interval pr nextLink (length (streams w) # deferred) ?w4
            else if deltaLink \<noteq> [] then
              TrackCollection_loop n client root interval pr deltaLink (length (streams w) # deferred) (Sleep interval ?w4)
            else (Some (Inr ()), run_deferred (length (streams w) # deferred) ?w4))"
          using TrackCollection_loop_step [where processResponse = pr, OF u rt [unfolded Inr] cb [unfolded c links]]
          by (simp add: Let_def)
        have t4: "trace ?w4 = trace w @ [Send (track_request u), Process (content rep)]"
          by (simp add: after_cycle_def)
        consider (page) "nextLink \<noteq> []" | (delta) "nextLink = []" "deltaLink \<noteq> []"
          | (stop) "nextLink = []" "deltaLink = []"
          by blast
        then show ?thesis
        proof cases
          case page
          from Suc.IH [of nextLink "length (streams w) # deferred" ?w4]
          obtain evs where "trace (snd (TrackCollection_loop n client root interval pr nextLink
                (length (streams w) # deferred) ?w4)) = trace ?w4 @ evs" "tracked interval evs"
            by blast
          with page step t4 show ?thesis by auto
        next
          case delta
          from Suc.IH [of deltaLink "length (streams w) # deferred" "Sleep interval ?w4"]
          obtain evs where "trace (snd (TrackCollection_loop n client root interval pr deltaLink
                (length (streams w) # deferred) (Sleep interval ?w4))) = trace (Sleep interval ?w4) @ evs"
             "tracked interval evs"
            by blast
          with delta step t4 show ?thesis by (auto simp: Sleep_def)
        next
          case stop
          with step t4 show ?thesis by auto
        qed
      qed
    qed
  qed
qed

lemma TrackCollection_loop_prefix:
  "prefix (trace w) (trace (snd (TrackCollection_loop n client root interval pr urlStr deferred w)))"
  using TrackCollection_loop_events [of n client root interval pr urlStr deferred w]
  by (auto simp: prefix_def)

lemma TrackCollection_loop_first_request:
  assumes "urlStr \<noteq> []" and "parse_url client (root @ urlStr) = Some u"
  shows "prefix (trace w @ [Send (track_request u)])
           (trace (snd (TrackCollection_loop (Suc n) client root interval pr urlStr deferred w)))"
proof -
  obtain r e1 where rt: "round_trip client (track_request u) (ext w) = (r, e1)"
    by (cases "round_trip client (track_request u) (ext w)")
  show ?thesis
  proof (cases r)
    case (Inl err)
    with assms rt show ?thesis by (simp add: ExecuteGETRequestEx_track)
  next
    case (Inr rep)
    obtain c e2 where cb: "pr (content rep) e1 = (c, e2)"
      by (cases "pr (content rep) e1")
    let ?w4 = "after_cycle (track_request u) (content rep) e2 w"
    have t4: "trace ?w4 = trace w @ [Send (track_request u), Process (content rep)]"
      by (simp add: after_cycle_def)
    show ?thesis
    proof (cases c)
      case (Inl a)
      with assms rt Inr cb show ?thesis
        by (cases w) (simp add: ExecuteGETRequestEx_track ReadAll_def invoke_def Println_def)
    next
      case c: (Inr links)
      obtain nextLink deltaLink where links: "links = (nextLink, deltaLink)" by (cases links)
      note step = TrackCollection_loop_step [where processResponse = pr and n = n
          and interval = interval and deferred = deferred, OF assms rt [unfolded Inr] cb [unfolded c links]]
      have "prefix (trace ?w4) (trace (snd (TrackCollection_loop (Suc n) client root interval pr urlStr deferred w)))"
        using step TrackCollection_loop_prefix [of ?w4 n client root interval pr nextLink "length (streams w) # deferred"]
          TrackCollection_loop_prefix [of "Sleep interval ?w4" n client root interval pr deltaLink "length (streams w) # deferred"]
        by (auto simp: Let_def Sleep_def prefix_def split: if_splits)
      then show ?thesis
        unfolding t4 by (auto simp: prefix_def)
    qed
  qed
qed

text \<open>
  Claim C1, amended. Take any cycle of \<^verbatim>\<open>TrackCollection\<close>: the loop is at a
  non-empty link, the request is built and sent, the server replies, and the callback
  returns \<open>(nextLink, deltaLink)\<close>. If \<open>nextLink\<close> is not empty and
  \<open>root @ nextLink\<close> is a URL that \<^verbatim>\<open>http.NewRequest\<close> accepts, the event right after
  the callback is the request for that URL, with no pause between. Otherwise, if
  \<open>deltaLink\<close> is not empty, the callback is followed by one pause of the configured
  interval, and then, \<open>root @ deltaLink\<close> being accepted, by the request for it.
  Otherwise the loop returns without error and sends nothing more.
\<close>

theorem TrackCollection_cycle:
  assumes "urlStr \<noteq> []" and "parse_url client (root @ urlStr) = Some u"
    and "round_trip client (track_request u) (ext w) = (Inr rep, ea)"
    and "processResponse (content rep) ea = (Inr (nextLink, deltaLink), eb)"
  shows "(nextLink \<noteq> [] \<and> parse_url client (root @ nextLink) = Some u' \<longrightarrow>
            prefix (trace w @ [Send (track_request u), Process (content rep), Send (track_request u')])
              (trace (snd (TrackCollection_loop (Suc (Suc n)) client root interval processResponse urlStr deferred w))))
       \<and> (nextLink = [] \<and> deltaLink \<noteq> [] \<longrightarrow>
            prefix (trace w @ [Send (track_request u), Process (content rep), Slept interval])
              (trace (snd (TrackCollection_loop (Suc n) client root interval processResponse urlStr deferred w))))
       \<and> (nextLink = [] \<and> deltaLink \<noteq> [] \<and> parse_url client (root @ deltaLink) = Some u' \<longrightarrow>
            prefix (trace w @ [Send (track_request u), Process (content rep), Slept interval,
                               Send (track_request u')])
              (trace (snd (TrackCollection_loop (Suc (Suc n)) client root interval processResponse urlStr deferred w))))
       \<and> (nextLink = [] \<and> deltaLink = [] \<longrightarrow>
            fst (TrackCollection_loop (Suc n) client root interval processResponse urlStr deferred w) = Some (Inr ())
            \<and> trace (snd (TrackCollection_loop (Suc n) client root interval processResponse urlStr deferred w))
                = trace w @ [Send (track_request u), Process (content rep)])"
proof -
  let ?w4 = "after_cycle (track_request u) (content rep) eb w"
  let ?ds = "length (streams w) # deferred"
  have t4: "trace ?w4 = trace w @ [Send (track_request u), Process (content rep)]"
    by (simp add: after_cycle_def)
  note step = TrackCollection_loop_step [where processResponse = processResponse, OF assms]
  have page: "prefix (trace w @ [Send (track_request u), Process (content rep), Send (track_request u')])
      (trace (snd (TrackCollection_loop (Suc (Suc n)) client root interval processResponse urlStr deferred w)))"
    if "nextLink \<noteq> []" and "parse_url client (root @ nextLink) = Some u'"
    using that step [of "Suc n" interval deferred]
      TrackCollection_loop_first_request [of nextLink client root u' ?w4 n interval processResponse ?ds]
    by (simp add: Let_def t4)
  have pause: "prefix (trace w @ [Send (track_request u), Process (content rep), Slept interval])
      (trace (snd (TrackCollection_loop (Suc n) client root interval processResponse urlStr deferred w)))"
    if "nextLink = []" and "deltaLink \<noteq> []"
    using that step [of n interval deferred]
      TrackCollection_loop_prefix [of "Sleep interval ?w4" n client root interval processResponse deltaLink ?ds]
    by (simp add: Let_def t4 Sleep_def)
  have delta: "prefix (trace w @ [Send (track_request u), Process (content rep), Slept interval,
                               Send (track_request u')])
      (trace (snd (TrackCollection_loop (Suc (Suc n)) client root interval processResponse urlStr deferred w)))"
    if "nextLink = []" and "deltaLink \<noteq> []" and "parse_url client (root @ deltaLink) = Some u'"
    using that step [of "Suc n" interval deferred]
      TrackCollection_loop_first_request [of deltaLink client root u' "Sleep interval ?w4" n interval processResponse ?ds]
    by (simp add: Let_def t4 Sleep_def)
  have stop: "fst (TrackCollection_loop (Suc n) client root interval processResponse urlStr deferred w) = Some (Inr ())
      \<and> trace (snd (TrackCollection_loop (Suc n) client root interval processResponse urlStr deferred w))
          = trace w @ [Send (track_request u), Process (content rep)]"
    if "nextLink = []" and "deltaLink = []"
    using that step [of n interval deferred] by (simp add: Let_def t4)
  from page pause delta stop show ?thesis by blast
qed

theorem TrackCollection_cycle_witness:
  "prefix [Send (track_request ''http://tm1/MessageLogEntries''), Process ''page 1'',
           Send (track_request ''http://tm1/p2'')]
     (trace (snd (TrackCollection_loop (Suc (Suc 0)) (scripted any_url) ''http://tm1/'' 5000000000
                    (decoding scenario_decode) ''MessageLogEntries'' [] (initial [page1, page2, delta1]))))
   \<and> prefix [Send (track_request ''http://tm1/p2''), Process ''page 2'', Slept 5000000000]
     (trace (snd (TrackCollection_loop (Suc 0) (scripted any_url) ''http://tm1/'' 5000000000
                    (decoding scenario_decode) ''p2'' [] (initial [page2, delta1]))))
   \<and> prefix [Send (track_request ''http://tm1/p2''), Process ''page 2'', Slept 5000000000,
             Send (track_request ''http://tm1/d1'')]
     (trace (snd (TrackCollection_loop (Suc (Suc 0)) (scripted any_url) ''http://tm1/'' 5000000000
                    (decoding scenario_decode) ''p2'' [] (initial [page2, delta1]))))
   \<and> fst (TrackCollection_loop (Suc 0) (scripted any_url) ''http://tm1/'' 5000000000
            (decoding scenario_decode) ''d1'' [] (initial [delta1])) = Some (Inr ())
   \<and> trace (snd (TrackCollection_loop (Suc 0) (scripted any_url) ''http://tm1/'' 5000000000
            (decoding scenario_decode) ''d1'' [] (initial [delta1])))
       = [Send (track_request ''http://tm1/d1''), Process ''delta 1'']"
  using TrackCollection_cycle [where urlStr = "''MessageLogEntries''" and client = "scripted any_url"
      and root = "''http://tm1/''" and w = "initial [page1, page2, delta1]" and rep = page1
      and u = "''http://tm1/MessageLogEntries''" and u' = "''http://tm1/p2''"
      and ea = "[page2, delta1]" and eb = "[page2, delta1]" and processResponse = "decoding scenario_decode"
      and nextLink = "''p2''" and deltaLink = "[]" and n = 0 and interval = 5000000000 and deferred = "[]"]
    TrackCollection_cycle [where urlStr = "''p2''" and client = "scripted any_url"
      and root = "''http://tm1/''" and w = "initial [page2, delta1]" and rep = page2
      and u = "''http://tm1/p2''" and u' = "''http://tm1/d1''"
      and ea = "[delta1]" and eb = "[delta1]" and processResponse = "decoding scenario_decode"
      and nextLink = "[]" and deltaLink = "''d1''" and n = 0 and interval = 5000000000 and deferred = "[]"]
    TrackCollection_cycle [where urlStr = "''d1''" and client = "scripted any_url"
      and root = "''http://tm1/''" and w = "initial [delta1]" and rep = delta1
      and u = "''http://tm1/d1''" and u' = "[]"
      and ea = "[]" and eb = "[]" and processResponse = "decoding scenario_decode"
      and nextLink = "[]" and deltaLink = "[]" and n = 0 and interval = 5000000000 and deferred = "[]"]
  by (simp add: initial_def decoding_def scenario_decode_def page1_def page2_def delta1_def any_url_def
      del: TrackCollection_loop.simps)

text \<open>
  Without the condition on the link claim C1 fails: the callback returns
  the next link \<open>%zz\<close>, which is not empty; no request can be built from it, and the
  run ends in a panic with nothing sent after the callback.
\<close>

theorem TrackCollection_cycle_counterexample:
  "fst (bad_next ''page 1'') \<noteq> []
   \<and> fst (TrackCollection_loop (Suc (Suc 0)) (scripted escapes_ok) ''http://tm1/'' 5000000000
            (decoding bad_next) ''MessageLogEntries'' [] (initial [page1, page2]))
       = Some (Inl (Panic nil_dereference))
   \<and> trace (snd (TrackCollection_loop (Suc (Suc 0)) (scripted escapes_ok) ''http://tm1/'' 5000000000
            (decoding bad_next) ''MessageLogEntries'' [] (initial [page1, page2])))
       = [Send (track_request ''http://tm1/MessageLogEntries''), Process ''page 1'']"
  by (simp add: ExecuteGETRequestEx_track initial_def ReadAll_def invoke_def decoding_def bad_next_def
      Println_def page1_def page2_def is_hex_def)

lemma TrackCollection_loop_with_delta:
  "TrackCollection_loop k client root interval (with_delta d pr) urlStr deferred w =
   TrackCollection_loop k client root interval pr urlStr deferred w"
proof (induction k arbitrary: urlStr deferred w)
  case 0
  then show ?case by simp
next
  case (Suc k)
  show ?case
  proof (cases "urlStr = [] \<or> parse_url client (root @ urlStr) = None")
    case True
    then show ?thesis by (auto simp: ExecuteGETRequestEx_track)
  next
    case False
    then obtain u where u: "urlStr \<noteq> []" "parse_url client (root @ urlStr) = Some u" by auto
    obtain r e1 where rt: "round_trip client (track_request u) (ext w) = (r, e1)"
      by (cases "round_trip client (track_request u) (ext w)")
    show ?thesis
    proof (cases r)
      case (Inl err)
      with u rt show ?thesis by (simp add: ExecuteGETRequestEx_track)
    next
      case (Inr rep)
      obtain c e2 where cb: "pr (content rep) e1 = (c, e2)"
        by (cases "pr (content rep) e1")
      show ?thesis
      proof (cases c)
        case (Inl a)
        with u rt Inr cb show ?thesis
          by (cases w) (simp add: ExecuteGETRequestEx_track ReadAll_def invoke_def Println_def with_delta_def)
      next
        case c: (Inr links)
        obtain nextLink deltaLink where links: "links = (nextLink, deltaLink)" by (cases links)
        have cb': "with_delta d pr (content rep) e1 = (Inr (nextLink, if nextLink \<noteq> [] then d else deltaLink), e2)"
          using cb c links by (simp add: with_delta_def)
        note s1 = TrackCollection_loop_step [where processResponse = pr and n = k
          and interval = interval and deferred = deferred, OF u rt [unfolded Inr] cb [unfolded c links]]
        note s2 = TrackCollection_loop_step [where processResponse = "with_delta d pr" and n = k
          and interval = interval and deferred = deferred, OF u rt [unfolded Inr] cb']
        show ?thesis
          unfolding s1 s2 by (simp add: Let_def Suc.IH)
      qed
    qed
  qed
qed

text \<open>
  Claim C2, amended. When the callback returns both links non-empty, the next page wins:
  \<open>root @ nextLink\<close> being a URL that \<^verbatim>\<open>http.NewRequest\<close> accepts, the request
  for it follows the callback at once; and the delta link plays no part, since a run in
  which every such answer carries another delta link \<open>d\<close> is the same run.
\<close>

theorem TrackCollection_next_page_priority:
  assumes "urlStr \<noteq> []" and "parse_url client (root @ urlStr) = Some u"
    and "round_trip client (track_request u) (ext w) = (Inr rep, ea)"
    and "processResponse (content rep) ea = (Inr (nextLink, deltaLink), eb)"
    and "nextLink \<noteq> []" and "deltaLink \<noteq> []"
  shows "(parse_url client (root @ nextLink) = Some u' \<longrightarrow>
            prefix (trace w @ [Send (track_request u), Process (content rep), Send (track_request u')])
              (trace (snd (TrackCollection_loop (Suc (Suc n)) client root interval processResponse urlStr deferred w))))
       \<and> TrackCollection_loop k client root interval (with_delta d processResponse) urlStr deferred w
           = TrackCollection_loop k client root interval processResponse urlStr deferred w"
proof
  let ?w4 = "after_cycle (track_request u) (content rep) eb w"
  have t4: "trace ?w4 = trace w @ [Send (track_request u), Process (content rep)]"
    by (simp add: after_cycle_def)
  note step = TrackCollection_loop_step [where processResponse = processResponse, OF assms(1-4)]
  show "parse_url client (root @ nextLink) = Some u' \<longrightarrow>
          prefix (trace w @ [Send (track_request u), Process (content rep), Send (track_request u')])
           (trace (snd (TrackCollection_loop (Suc (Suc n)) client root interval processResponse urlStr deferred w)))"
    using assms(5) step [of "Suc n" interval deferred]
      TrackCollection_loop_first_request [of nextLink client root u' ?w4 n interval processResponse "length (streams w) # deferred"]
    by (simp add: Let_def t4)
  show "TrackCollection_loop k client root interval (with_delta d processResponse) urlStr deferred w
           = TrackCollection_loop k client root interval processResponse urlStr deferred w"
    by (rule TrackCollection_loop_with_delta)
qed

theorem TrackCollection_next_page_priority_witness:
  "prefix [Send (track_request ''http://tm1/MessageLogEntries''), Process ''page 1'',
           Send (track_request ''http://tm1/p2'')]
     (trace (snd (TrackCollection_loop (Suc (Suc 0)) (scripted any_url) ''http://tm1/'' 5000000000
                    (decoding both_links) ''MessageLogEntries'' [] (initial [page1, page2]))))
   \<and> TrackCollection_loop (Suc (Suc 0)) (scripted any_url) ''http://tm1/'' 5000000000
        (with_delta [] (decoding both_links)) ''MessageLogEntries'' [] (initial [page1, page2])
       = TrackCollection_loop (Suc (Suc 0)) (scripted any_url) ''http://tm1/'' 5000000000
        (decoding both_links) ''MessageLogEntries'' [] (initial [page1, page2])"
  using TrackCollection_next_page_priority [where urlStr = "''MessageLogEntries''" and client = "scripted any_url"
      and root = "''http://tm1/''" and w = "initial [page1, page2]" and rep = page1
      and u = "''http://tm1/MessageLogEntries''" and u' = "''http://tm1/p2''"
      and ea = "[page2]" and eb = "[page2]" and processResponse = "decoding both_links"
      and nextLink = "''p2''" and deltaLink = "''d1''" and n = 0 and interval = 5000000000
      and deferred = "[]" and k = "Suc (Suc 0)" and d = "[]"]
  by (simp add: initial_def decoding_def both_links_def page1_def any_url_def
      del: TrackCollection_loop.simps)

text \<open>
  Without the condition on the next link claim C2 fails: with the next link
  \<open>%zz\<close> and the delta link \<open>d1\<close> the tracker does not go on to the next page;
  the run ends in a panic.
\<close>

theorem TrackCollection_next_page_priority_counterexample:
  "fst (bad_both ''page 1'') \<noteq> [] \<and> snd (bad_both ''page 1'') \<noteq> []
   \<and> fst (TrackCollection_loop (Suc (Suc (Suc 0))) (scripted escapes_ok) ''http://tm1/'' 5000000000
            (decoding bad_both) ''MessageLogEntries'' [] (initial [page1, page2]))
       = Some (Inl (Panic nil_dereference))
   \<and> trace (snd (TrackCollection_loop (Suc (Suc (Suc 0))) (scripted escapes_ok) ''http://tm1/'' 5000000000
            (decoding bad_both) ''MessageLogEntries'' [] (initial [page1, page2])))
       = [Send (track_request ''http://tm1/MessageLogEntries''), Process ''page 1'']"
  by (simp add: ExecuteGETRequestEx_track initial_def ReadAll_def invoke_def decoding_def bad_both_def
      Println_def page1_def page2_def is_hex_def)

subsection \<open>Whole runs\<close>

text \<open>
  Claim C3. The server answers page 1 (next link \<open>p2\<close>), page 2 (no next link, delta
  link \<open>d1\<close>) and a delta page with neither link. With fuel for three cycles or more,
  \<^verbatim>\<open>TrackCollection\<close> returns without error; its events are three requests and three
  callbacks on the three bodies in order, with one pause of the configured interval
  between the second callback and the third request, which goes to \<open>root @ d1\<close>; what
  is left of the script is untouched.
\<close>

theorem TrackCollection_three_responses:
  assumes "urlStr \<noteq> []"
    and "ok (root @ urlStr)" and "ok (root @ ''p2'')" and "ok (root @ ''d1'')"
    and "decode (content r1) = (''p2'', [])"
    and "decode (content r2) = ([], ''d1'')"
    and "decode (content r3) = ([], [])"
  shows "fst (TrackCollection (3 + k) (scripted ok) root urlStr interval (decoding decode)
                (w\<lparr>ext := r1 # r2 # r3 # rest\<rparr>)) = Some (Inr ())
       \<and> trace (snd (TrackCollection (3 + k) (scripted ok) root urlStr interval (decoding decode)
                (w\<lparr>ext := r1 # r2 # r3 # rest\<rparr>)))
           = trace w @ [Send (track_request (root @ urlStr)), Process (content r1),
                        Send (track_request (root @ ''p2'')), Process (content r2),
                        Slept interval,
                        Send (track_request (root @ ''d1'')), Process (content r3)]
       \<and> ext (snd (TrackCollection (3 + k) (scripted ok) root urlStr interval (decoding decode)
                (w\<lparr>ext := r1 # r2 # r3 # rest\<rparr>))) = rest"
proof -
  let ?pr = "decoding decode :: bytes \<Rightarrow> Reply list \<Rightarrow> (abort + string \<times> string) \<times> Reply list"
  let ?w0 = "w\<lparr>ext := r1 # r2 # r3 # rest\<rparr>"
  let ?w1 = "after_cycle (track_request (root @ urlStr)) (content r1) (r2 # r3 # rest) ?w0"
  let ?w2 = "Sleep interval (after_cycle (track_request (root @ ''p2'')) (content r2) (r3 # rest) ?w1)"
  let ?w3 = "after_cycle (track_request (root @ ''d1'')) (content r3) rest ?w2"
  have 3: "3 + k = Suc (Suc (Suc k))" by simp
  have s1: "TrackCollection_loop (Suc (Suc (Suc k))) (scripted ok) root interval ?pr urlStr [] ?w0
          = TrackCollection_loop (Suc (Suc k)) (scripted ok) root interval ?pr ''p2'' [length (streams ?w0)] ?w1"
    using assms
    by (subst TrackCollection_loop_step [where u = "root @ urlStr" and rep = r1 and ea = "r2 # r3 # rest" and eb = "r2 # r3 # rest"
          and nextLink = "''p2''" and deltaLink = "[]"])
       (simp_all add: decoding_def del: TrackCollection_loop.simps)
  have s2: "TrackCollection_loop (Suc (Suc k)) (scripted ok) root interval ?pr ''p2'' [length (streams ?w0)] ?w1
          = TrackCollection_loop (Suc k) (scripted ok) root interval ?pr ''d1''
              [length (streams ?w1), length (streams ?w0)] ?w2"
    using assms
    by (subst TrackCollection_loop_step [where u = "root @ ''p2''" and rep = r2 and ea = "r3 # rest" and eb = "r3 # rest"
          and nextLink = "[]" and deltaLink = "''d1''"])
       (simp_all add: decoding_def after_cycle_def del: TrackCollection_loop.simps)
  have s3: "TrackCollection_loop (Suc k) (scripted ok) root interval ?pr ''d1''
              [length (streams ?w1), length (streams ?w0)] ?w2
          = (Some (Inr ()), run_deferred [length (streams ?w2), length (streams ?w1), length (streams ?w0)] ?w3)"
    using assms
    by (subst TrackCollection_loop_step [where u = "root @ ''d1''" and rep = r3 and ea = "rest" and eb = "rest"
          and nextLink = "[]" and deltaLink = "[]"])
       (simp_all add: decoding_def after_cycle_def Sleep_def del: TrackCollection_loop.simps)
  show ?thesis
    unfolding TrackCollection_def 3 s1 s2 s3
    by (simp add: after_cycle_def Sleep_def)
qed

theorem TrackCollection_three_responses_witness:
  "fst (TrackCollection 3 (scripted any_url) ''http://tm1/'' ''MessageLogEntries'' 5000000000
          (decoding scenario_decode) (initial [page1, page2, delta1])) = Some (Inr ())
   \<and> trace (snd (TrackCollection 3 (scripted any_url) ''http://tm1/'' ''MessageLogEntries'' 5000000000
          (decoding scenario_decode) (initial [page1, page2, delta1])))
       = [Send (track_request ''http://tm1/MessageLogEntries''), Process ''page 1'',
          Send (track_request ''http://tm1/p2''), Process ''page 2'',
          Slept 5000000000,
          Send (track_request ''http://tm1/d1''), Process ''delta 1'']"
  using TrackCollection_three_responses [where urlStr = "''MessageLogEntries''" and ok = any_url
      and root = "''http://tm1/''" and decode = scenario_decode and ?r1.0 = page1 and ?r2.0 = page2
      and ?r3.0 = delta1 and k = 0 and interval = 5000000000 and rest = "[]"
      and w = "initial [page1, page2, delta1]"]
  by (simp add: initial_def scenario_decode_def page1_def page2_def delta1_def any_url_def
      TrackCollection_def del: TrackCollection_loop.simps)


lemma serving_simps [simp]:
  "round_trip (serving parse) req (rep # rest, c) = (Inr rep, (rest, c))"
  "round_trip (serving parse) req ([], c) = (Inl ''EOF'', ([], c))"
  "parse_url (serving parse) = parse"
  by (simp_all add: serving_def)

lemma links_of_Nil_iff [simp]: "links_of f c replies = [] \<longleftrightarrow> replies = []"
  by (cases replies) simp_all





text \<open>
  Claim C5. Every request \<^verbatim>\<open>TrackCollection\<close> sends, in any run and at any cycle, is
  a GET carrying \<open>OData-Version: 4.0\<close>, \<open>Accept: application/json\<close> and
  \<open>Prefer: odata.track-changes\<close>.
\<close>

theorem TrackCollection_request_headers:
  "\<exists>evs. trace (snd (TrackCollection fuel client root urlStr interval processResponse w)) = trace w @ evs
         \<and> (\<forall>req. Send req \<in> set evs \<longrightarrow>
               Method req = ''GET''
               \<and> Header req = [(''OData-Version'', ''4.0''), (''Accept'', ''application/json''),
                                (''Prefer'', ''odata.track-changes'')])"
proof -
  obtain evs where t: "trace (snd (TrackCollection fuel client root urlStr interval processResponse w)) = trace w @ evs"
    and g: "tracked interval evs"
    unfolding TrackCollection_def using TrackCollection_loop_events by blast
  have "Method req = ''GET''
        \<and> Header req = [(''OData-Version'', ''4.0''), (''Accept'', ''application/json''),
                         (''Prefer'', ''odata.track-changes'')]" if "Send req \<in> set evs" for req
  proof -
    from g that obtain u where "req = track_request u"
      unfolding tracked_def by blast
    then show ?thesis by (simp add: track_request_def)
  qed
  with t show ?thesis by blast
qed

theorem TrackCollection_request_headers_witness:
  "\<exists>evs. trace (snd (TrackCollection 3 (scripted any_url) ''http://tm1/'' ''MessageLogEntries'' 5000000000
                       (decoding scenario_decode) (initial [page1, page2, delta1]))) = evs
         \<and> Send (track_request ''http://tm1/d1'') \<in> set evs
         \<and> (\<forall>req. Send req \<in> set evs \<longrightarrow>
               Method req = ''GET''
               \<and> Header req = [(''OData-Version'', ''4.0''), (''Accept'', ''application/json''),
                                (''Prefer'', ''odata.track-changes'')])"
proof -
  have "trace (snd (TrackCollection 3 (scripted any_url) ''http://tm1/'' ''MessageLogEntries'' 5000000000
                       (decoding scenario_decode) (initial [page1, page2, delta1])))
        = [Send (track_request ''http://tm1/MessageLogEntries''), Process ''page 1'',
           Send (track_request ''http://tm1/p2''), Process ''page 2'',
           Slept 5000000000,
           Send (track_request ''http://tm1/d1''), Process ''delta 1'']"
    by (simp add: TrackCollection_def numeral_3_eq_3 ExecuteGETRequestEx_track initial_def any_url_def
        ReadAll_def invoke_def decoding_def scenario_decode_def Println_def Sleep_def
        page1_def page2_def delta1_def)
  then show ?thesis
    using TrackCollection_request_headers [of 3 "scripted any_url" "''http://tm1/''" "''MessageLogEntries''"
        5000000000 "decoding scenario_decode" "initial [page1, page2, delta1]"]
    by (simp add: initial_def)
qed

lemma TrackCollection_sleeps:
  "\<exists>evs. trace (snd (TrackCollection fuel client root urlStr interval processResponse w)) = trace w @ evs
         \<and> (\<forall>d. Slept d \<in> set evs \<longrightarrow> d = interval)"
  unfolding TrackCollection_def
  using TrackCollection_loop_events [of fuel client root interval processResponse urlStr "[]" w]
  by (auto simp: tracked_def)

subsection \<open>Response bodies\<close>

lemma ValidateStatusCode_match:
  "StatusCode resp = statusCode \<Longrightarrow> ValidateStatusCode resp statusCode logFmt w = (Inr (), w)"
  by (simp add: ValidateStatusCode_def)

lemma ValidateStatusCode_mismatch:
  "StatusCode resp \<noteq> statusCode \<Longrightarrow>
   ValidateStatusCode resp statusCode logFmt w =
     (Inl (Fatal (logFmt () @ CRLF @ ''Server responded with: '' @ Status resp @ CRLF
                  @ fst (ReadAll (Body resp) w))),
      snd (ReadAll (Body resp) w))"
  by (simp add: ValidateStatusCode_def log_Fatal_def split: prod.split)

text \<open>
  Claim C6. A reply with status 404 checked against 200: \<^verbatim>\<open>ValidateStatusCode\<close> reads
  the body to its end and ends the process with the diagnostic made of the caller's
  text, the status line and the body. The body stream is drained but is not closed: the
  deferred \<^verbatim>\<open>Close\<close> is still pending when \<^verbatim>\<open>log.Fatal\<close> exits.
\<close>

theorem ValidateStatusCode_mismatch_body_not_closed:
  "(case ExecuteGETRequest not_found ''http://tm1/Configuration'' (initial ()) of
      (Inl a, w) \<Rightarrow> False
    | (Inr resp, w) \<Rightarrow>
        StatusCode resp = 404
        \<and> fst (ValidateStatusCode resp 200 (\<lambda>_. ''version check'') w)
            = Inl (Fatal (''version check'' @ CRLF @ ''Server responded with: 404 Not Found'' @ CRLF
                          @ ''no such entity''))
        \<and> streams (snd (ValidateStatusCode resp 200 (\<lambda>_. ''version check'') w)) = [([], False)]
        \<and> open_bodies (snd (ValidateStatusCode resp 200 (\<lambda>_. ''version check'') w)) = 1)"
  by (simp add: ExecuteGETRequest_get not_found_def any_url_def initial_def
      ValidateStatusCode_mismatch ReadAll_def open_bodies_def)

lemma open_bodies_after_cycle [simp]:
  "open_bodies (after_cycle req body e w) = Suc (open_bodies w)"
  by (simp add: open_bodies_def after_cycle_def)

lemma open_bodies_Sleep [simp]: "open_bodies (Sleep d w) = open_bodies w"
  by (simp add: open_bodies_def Sleep_def)

lemma TrackCollection_loop_running:
  "fst (TrackCollection_loop n client root interval pr urlStr deferred w) = None \<Longrightarrow>
   open_bodies (snd (TrackCollection_loop n client root interval pr urlStr deferred w)) = open_bodies w + n"
proof (induction n arbitrary: urlStr deferred w)
  case 0
  then show ?case by simp
next
  case (Suc n)
  show ?case
  proof (cases "urlStr = [] \<or> parse_url client (root @ urlStr) = None")
    case True
    then have "fst (TrackCollection_loop (Suc n) client root interval pr urlStr deferred w) \<noteq> None"
      by (auto simp: ExecuteGETRequestEx_track)
    with Suc.prems show ?thesis by simp
  next
    case False
    then obtain u where u: "urlStr \<noteq> []" "parse_url client (root @ urlStr) = Some u" by auto
    obtain r e1 where rt: "round_trip client (track_request u) (ext w) = (r, e1)"
      by (cases "round_trip client (track_request u) (ext w)")
    show ?thesis
    proof (cases r)
      case (Inl err)
      with u rt have "fst (TrackCollection_loop (Suc n) client root interval pr urlStr deferred w) \<noteq> None"
        by (simp add: ExecuteGETRequestEx_track)
      with Suc.prems show ?thesis by simp
    next
      case (Inr rep)
      obtain c e2 where cb: "pr (content rep) e1 = (c, e2)"
        by (cases "pr (content rep) e1")
      show ?thesis
      proof (cases c)
        case (Inl a)
        with u rt Inr cb
        have "fst (TrackCollection_loop (Suc n) client root interval pr urlStr deferred w) \<noteq> None"
          by (cases w) (simp add: ExecuteGETRequestEx_track ReadAll_def invoke_def Println_def)
        with Suc.prems show ?thesis by simp
      next
        case c: (Inr links)
        obtain nextLink deltaLink where links: "links = (nextLink, deltaLink)" by (cases links)
        note step = TrackCollection_loop_step [where processResponse = pr and n = n
          and interval = interval and deferred = deferred, OF u rt [unfolded Inr] cb [unfolded c links]]
        from Suc.prems show ?thesis
          unfolding step by (auto simp: Let_def dest!: Suc.IH split: if_splits)
      qed
    qed
  qed
qed

lemma TrackCollection_loop_steady:
  "urlStr \<noteq> [] \<Longrightarrow>
   fst (TrackCollection_loop n steady root interval (decoding always_delta) urlStr deferred w) = None"
proof (induction n arbitrary: urlStr deferred w)
  case 0
  then show ?case by simp
next
  case (Suc n)
  have "TrackCollection_loop (Suc n) steady root interval (decoding always_delta) urlStr deferred w =
          TrackCollection_loop n steady root interval (decoding always_delta) ''delta''
            (length (streams w) # deferred)
            (Sleep interval (after_cycle (track_request (root @ urlStr)) ''{}'' (ext w) w))"
    using Suc.prems
    by (subst TrackCollection_loop_step [where u = "root @ urlStr" and rep = "\<lparr>code = 200, status = ''200 OK'', content = ''{}''\<rparr>"
          and ea = "ext w" and eb = "ext w" and nextLink = "[]" and deltaLink = "''delta''"])
       (simp_all add: steady_def any_url_def decoding_def always_delta_def del: TrackCollection_loop.simps)
  then show ?case by (simp add: Suc.IH del: TrackCollection_loop.simps)
qed

text \<open>
  Claim C7. Against a server that answers every request with a page carrying a delta
  link, the tracker has \<open>n\<close> bodies open after \<open>n\<close> cycles, for every \<open>n\<close>: each
  \<^verbatim>\<open>Close\<close> is deferred to the return of \<^verbatim>\<open>TrackCollection\<close>, not to the end of
  the cycle. When the run ends in \<^verbatim>\<open>log.Fatal\<close> (here the connection fails at the
  third request), the bodies received so far are still open.
\<close>

theorem TrackCollection_bodies_accumulate:
  "open_bodies (snd (TrackCollection n steady root ''MessageLogEntries'' interval
                      (decoding always_delta) (initial ()))) = n
   \<and> fst (TrackCollection (Suc (Suc (Suc 0))) (scripted any_url) root ''MessageLogEntries'' interval
            (decoding always_delta) (initial [page1, page2])) = Some (Inl (Fatal ''EOF''))
   \<and> open_bodies (snd (TrackCollection (Suc (Suc (Suc 0))) (scripted any_url) root ''MessageLogEntries'' interval
            (decoding always_delta) (initial [page1, page2]))) = 2"
proof -
  have "open_bodies (snd (TrackCollection n steady root ''MessageLogEntries'' interval
                      (decoding always_delta) (initial ()))) = open_bodies (initial ()) + n"
    unfolding TrackCollection_def
    by (rule TrackCollection_loop_running) (simp add: TrackCollection_loop_steady)
  moreover have "open_bodies (initial ()) = 0"
    by (simp add: open_bodies_def initial_def)
  moreover have "TrackCollection (Suc (Suc (Suc 0))) (scripted any_url) root ''MessageLogEntries'' interval
            (decoding always_delta) (initial [page1, page2])
        = (Some (Inl (Fatal ''EOF'')),
           \<lparr>ext = [], streams = [([], False), ([], False)],
            trace = [Send (track_request (root @ ''MessageLogEntries'')), Process ''page 1'', Slept interval,
                     Send (track_request (root @ ''delta'')), Process ''page 2'', Slept interval,
                     Send (track_request (root @ ''delta''))],
            stdout = [''GET '' @ root @ ''MessageLogEntries'', ''page 1'', ''GET '' @ root @ ''delta'',
                      ''page 2'', ''GET '' @ root @ ''delta''],
            Verbose = True\<rparr>)"
    by (simp add: TrackCollection_def ExecuteGETRequestEx_track initial_def any_url_def ReadAll_def
        invoke_def decoding_def always_delta_def Println_def Sleep_def page1_def page2_def)
  ultimately show ?thesis by (simp add: open_bodies_def)
qed

subsection \<open>The polling interval\<close>

lemma main_interval_unset: "main_interval unset = 5"
  by (simp add: main_interval_def unset_def Getenv_def Atoi_def)

lemma main_interval_syntax_error:
  "snd (Atoi v) = Some ErrSyntax \<Longrightarrow> main_interval (interval_env v) = 5"
  by (auto simp: main_interval_def interval_env_def Getenv_def Atoi_def Let_def split: if_splits)

lemma main_interval_at_least_1: "1 \<le> main_interval env"
  by (simp add: main_interval_def split: prod.split)

lemma main_interval_examples:
  "main_interval (interval_env ''abc'') = 5"
  "main_interval (interval_env ''0'') = 5"
  "main_interval (interval_env ''-3'') = 5"
  "main_interval (interval_env ''7'') = 7"
  "sint (main_duration (interval_env ''7'')) = 7 * 1000000000"
  "sint (main_duration unset) = 5 * 1000000000"
  by (simp_all add: main_interval_def main_duration_def interval_env_def unset_def Getenv_def Atoi_def
      is_digit_def Second_def)

lemma main_duration_exact:
  assumes "main_interval env \<le> 9223372036"
  shows "sint (main_duration env) = main_interval env * 1000000000"
proof -
  define k where "k = main_interval env * 1000000000"
  have "1 \<le> main_interval env" by (rule main_interval_at_least_1)
  with assms have lo: "- (2 ^ 63) \<le> k" and hi: "k < 2 ^ 63"
    by (simp_all add: k_def)
  have "main_duration env = (word_of_int k :: 64 word)"
    by (simp add: main_duration_def Second_def k_def)
  then have "sint (main_duration env) = signed_take_bit 63 k"
    by (simp only: sint_sbintrunc') simp
  also have "\<dots> = k"
    using lo hi by (rule signed_take_bit_int_eq_self)
  finally show ?thesis by (simp add: k_def)
qed

text \<open>
  Claim C8. \<^verbatim>\<open>TM1_TRACKER_INTERVAL=99999999999999999999\<close> is not a valid \<^verbatim>\<open>int\<close>:
  \<^verbatim>\<open>Atoi\<close> reports a range error and returns the largest \<^verbatim>\<open>int\<close>. The error is
  discarded and the value is not below 1, so the interval is not 5 but
  9223372036854775807, and the duration handed to the tracker wraps around to minus one
  second. A value that parses, 9223372037, wraps around too.
\<close>

theorem main_interval_out_of_range:
  "Atoi ''99999999999999999999'' = (9223372036854775807, Some ErrRange)
   \<and> main_interval (interval_env ''99999999999999999999'') = 9223372036854775807
   \<and> sint (main_duration (interval_env ''99999999999999999999'')) = - 1000000000
   \<and> Atoi ''9223372037'' = (9223372037, None)
   \<and> sint (main_duration (interval_env ''9223372037'')) = - 9223372036709551616"
  by (simp add: main_interval_def main_duration_def interval_env_def Getenv_def Atoi_def is_digit_def
      Second_def)

subsection \<open>The version gate\<close>

lemma string_less_lexord:
  "string_less a b \<longleftrightarrow> (map of_char a, map of_char b) \<in> lexord {(x, y :: nat). x < y}"
  by (induction a b rule: string_less.induct) auto

text \<open>
  Claim C9. The condition of the version gate compares the first 10 bytes of the body
  with \<open>10.2.20500\<close> in the lexicographic order of the byte values. It has a value only
  if the body has at least 10 bytes: on a shorter body the slice expression panics.
\<close>

theorem version_gate_first_ten_bytes:
  "version_too_old version =
     (if length version < 10 then Inl (Panic slice_out_of_range)
      else Inr ((map of_char (take 10 version), map of_char ''10.2.20500'')
                  \<in> lexord {(x, y :: nat). x < y}))"
  by (simp add: version_too_old_def slice_string_def string_less_lexord del: string_less.simps)

theorem version_gate_first_ten_bytes_witness:
  "version_too_old ''10.2.20400.7'' = Inr True
   \<and> version_too_old ''10.2.20500.1'' = Inr False
   \<and> version_too_old ''10.2'' = Inl (Panic slice_out_of_range)
   \<and> version_too_old [] = Inl (Panic slice_out_of_range)"
  using version_gate_first_ten_bytes [of "''10.2.20400.7''"]
    version_gate_first_ten_bytes [of "''10.2.20500.1''"]
    version_gate_first_ten_bytes [of "''10.2''"]
    version_gate_first_ten_bytes [of "[]"]
  by (simp add: version_too_old_def slice_string_def)

end
